theory Spec2Isabelle
  imports Main
begin

section \<open>Data model (backend/recipes/models.py)\<close>

text \<open>
  Every Django model is a record; a table is the list of its rows and a foreign key is
  the primary key of the row it refers to. Primary keys are natural numbers. The fields
  \<open>id\<close> and \<open>name\<close> occur in several models, so they carry the model as a prefix;
  \<open>text\<close> is a keyword of Isabelle, so the field is \<open>recipe_text\<close>.
\<close>

record Ingredient =
  ingredient_id :: nat
  ingredient_name :: string
  measurement_unit :: string

record Recipe =
  recipe_id :: nat
  author :: nat
  ingredients :: "nat list"
  tags :: "nat list"
  image :: string
  recipe_name :: string
  recipe_text :: string
  cooking_time :: int

text \<open>
  The join entity of models.py (\<open>IngredientAmount\<close>; views.py imports it under the name
  \<open>IngredientInRecipe\<close>). \<open>amount\<close> is a \<open>PositiveSmallIntegerField\<close>, which the
  database keeps non-negative.
\<close>

record IngredientAmount =
  ingredient :: nat
  recipe :: nat
  amount :: nat

text \<open>
  Modelled from the spec: the membership models \<open>Favorite\<close>, \<open>ShoppingList\<close> and
  \<open>Follow\<close> and the user model \<open>CustomUser\<close> are imported by views.py but are not
  declared in models.py. A favourite or shopping-list entry associates a user with a
  recipe, a follow entry associates a following user with a followed author; a user is
  known by its primary key.
\<close>

record membership =
  m_user :: nat
  m_recipe :: nat

record follow =
  f_user :: nat
  f_author :: nat

record db =
  CustomUser_objects :: "nat list"
  Recipe_objects :: "Recipe list"
  Ingredient_objects :: "Ingredient list"
  IngredientInRecipe_objects :: "IngredientAmount list"
  Favorite_objects :: "membership list"
  ShoppingList_objects :: "membership list"
  Follow_objects :: "follow list"

section \<open>Shopping-cart export (DownloadShoppingCart.get)\<close>

subsection \<open>The query\<close>

text \<open>\<open>request.user.purchases.values_list('recipe__id')\<close>: the recipes of the user's
  shopping-list rows.\<close>

definition purchases :: "db \<Rightarrow> nat \<Rightarrow> nat list" where
  "purchases s user = map m_recipe (filter (\<lambda>p. m_user p = user) (ShoppingList_objects s))"

text \<open>\<open>IngredientInRecipe.objects.filter(recipe__in=recipe_id)\<close>.\<close>

definition filter_recipe_in :: "nat list \<Rightarrow> IngredientAmount list \<Rightarrow> IngredientAmount list" where
  "filter_recipe_in recipe_ids rows = filter (\<lambda>r. recipe r \<in> set recipe_ids) rows"

text \<open>
  \<open>.values('ingredient', 'ingredient__name', 'ingredient__measurement_unit')\<close>: the
  inner join with the ingredient table. A row of the result is the triple of the three
  selected columns, paired with the row's amount for the aggregate that follows.
\<close>

type_synonym values_row = "nat \<times> string \<times> string"

definition values_ingredient ::
  "Ingredient list \<Rightarrow> IngredientAmount list \<Rightarrow> (values_row \<times> nat) list" where
  "values_ingredient ings rows =
     concat (map (\<lambda>r. map (\<lambda>i. ((ingredient r, ingredient_name i, measurement_unit i), amount r))
                         (filter (\<lambda>i. ingredient_id i = ingredient r) ings)) rows)"

text \<open>
  \<open>.annotate(amount=Sum('amount'))\<close> after \<open>values\<close>: one result row per distinct
  triple of selected columns, carrying the sum of the amounts of its rows. The query has
  no ordering of its own; the groups come in the order in which the table yields their
  first rows, and the table order is arbitrary. (Django before 3.1 adds the model's
  \<open>Meta.ordering\<close> to the grouping, which makes every row a group of its own; the loop
  below then adds up the same amounts under the same names.)
\<close>

fun annotate_sum :: "('k \<times> nat) list \<Rightarrow> ('k \<times> nat) list" where
  "annotate_sum [] = []"
| "annotate_sum ((k, a) # rows) =
     (k, a + sum_list (map snd (filter (\<lambda>r. fst r = k) rows)))
       # annotate_sum (filter (\<lambda>r. fst r \<noteq> k) rows)"

definition ingredients_query :: "db \<Rightarrow> nat \<Rightarrow> (values_row \<times> nat) list" where
  "ingredients_query s user =
     annotate_sum (values_ingredient (Ingredient_objects s)
       (filter_recipe_in (purchases s user) (IngredientInRecipe_objects s)))"

subsection \<open>The loop over the query result\<close>

text \<open>
  \<open>buying_list\<close> is a Python dict from the ingredient's name to a dict with the keys
  \<open>measurement_unit\<close> and \<open>amount\<close>. A dict iterates in insertion order, so it is an
  association list with distinct keys, a new key going to the end; the inner dict is the
  pair (measurement unit, amount).
\<close>

type_synonym buying_list = "(string \<times> (string \<times> nat)) list"

definition buying_list_step :: "buying_list \<Rightarrow> values_row \<times> nat \<Rightarrow> buying_list" where
  "buying_list_step bl row =
     (case row of ((i, name, unit), amt) \<Rightarrow>
        if name \<notin> fst ` set bl
        then bl @ [(name, (unit, amt))]
        else map (\<lambda>(k, v). if k = name then (k, (fst v, snd v + amt)) else (k, v)) bl)"

definition build_buying_list :: "(values_row \<times> nat) list \<Rightarrow> buying_list" where
  "build_buying_list rows = foldl buying_list_step [] rows"

subsection \<open>Rendering\<close>

text \<open>The f-string prints the amount, a Python int, in decimal.\<close>

function str_nat :: "nat \<Rightarrow> string" where
  "str_nat n = (if n < 10 then [''0123456789'' ! n]
                else str_nat (n div 10) @ [''0123456789'' ! (n mod 10)])"
  by pat_completeness auto
termination
  by (relation "measure id") auto

declare str_nat.simps [simp del]

definition newline :: string where
  "newline = [CHR 0x0A]"

definition footer :: string where
  "footer = ''FoodGram | kirilyuk.surgut@yandex.ru | 2022''"

definition wishlist_line :: "string \<times> (string \<times> nat) \<Rightarrow> string" where
  "wishlist_line e =
     (case e of (item, (unit, amt)) \<Rightarrow>
        item @ '' - '' @ str_nat amt @ '' '' @ unit @ '' '' @ newline)"

definition make_wishlist :: "buying_list \<Rightarrow> string list" where
  "make_wishlist bl = map wishlist_line bl @ [newline, footer]"

definition wishlist :: "db \<Rightarrow> nat \<Rightarrow> string list" where
  "wishlist s user = make_wishlist (build_buying_list (ingredients_query s user))"

subsection \<open>The response\<close>

text \<open>
  Django's \<open>HttpResponse(content, content_type)\<close>: the content is the concatenation of
  the chunks of an iterable, the status is 200, and the header \<open>Content-Type\<close> is the
  second argument as it is given (a default built from the charset when it is absent).
  \<open>response[h] = v\<close> sets a header.
\<close>

record HttpResponse =
  content :: string
  status_code :: nat
  headers :: "(string \<times> string) list"

definition HttpResponse_init :: "string list \<Rightarrow> string option \<Rightarrow> HttpResponse" where
  "HttpResponse_init chunks content_type =
     \<lparr>content = concat chunks, status_code = 200,
      headers = [(''Content-Type'',
        (case content_type of None \<Rightarrow> ''text/html; charset=utf-8'' | Some ct \<Rightarrow> ct))]\<rparr>"

definition setitem :: "HttpResponse \<Rightarrow> string \<Rightarrow> string \<Rightarrow> HttpResponse" where
  "setitem response h v =
     response\<lparr>headers := (if h \<in> fst ` set (headers response)
                           then map (\<lambda>(k, w). if k = h then (k, v) else (k, w)) (headers response)
                           else headers response @ [(h, v)])\<rparr>"

text \<open>The view runs behind \<open>IsAuthenticated\<close>: \<open>user\<close> is the authenticated user.\<close>

definition DownloadShoppingCart_get :: "db \<Rightarrow> nat \<Rightarrow> HttpResponse" where
  "DownloadShoppingCart_get s user =
     setitem (HttpResponse_init (wishlist s user) (Some ''Content-Type: text/plain''))
       ''Content-Disposition'' ''attachment; filename=\"wishlist.txt\"''"

section \<open>Membership views\<close>

subsection \<open>Framework behaviour the views rely on\<close>

text \<open>
  An exception that leaves a view. Django answers \<open>Http404\<close> with status 404;
  \<open>MultipleObjectsReturned\<close> is not caught by \<open>get_object_or_404\<close> and ends the
  request with a server error.
\<close>

datatype exn = Http404 | MultipleObjectsReturned

text \<open>\<open>get_object_or_404(Model, **lookup)\<close> is \<open>Model.objects.get(**lookup)\<close> with
  \<open>DoesNotExist\<close> turned into \<open>Http404\<close>.\<close>

definition get_object_or_404 :: "'a list \<Rightarrow> ('a \<Rightarrow> bool) \<Rightarrow> exn + 'a" where
  "get_object_or_404 objs lookup =
     (case filter lookup objs of
        [] \<Rightarrow> Inl Http404
      | [obj] \<Rightarrow> Inr obj
      | _ \<Rightarrow> Inl MultipleObjectsReturned)"

text \<open>
  The truth value Python gives a model instance in \<open>if not favorite_obj\<close>: the class
  \<open>Model\<close> defines neither \<open>__bool__\<close> nor \<open>__len__\<close>, so every instance is true.
\<close>

definition instance_bool :: "'a \<Rightarrow> bool" where
  "instance_bool obj = True"

text \<open>
  The texts of the responses are Russian; each is a constructor here:
  \<open>Already_subscribed\<close> for the body of line 78, \<open>Deleted\<close> for lines 90 and 117,
  \<open>Recipe_already_added\<close> for line 98 and \<open>Recipe_not_added\<close> for line 113 of
  views.py. A response body is such a text or the data of a serializer; the serializers
  are not part of the sources and are a parameter of the views.
\<close>

datatype message = Already_subscribed | Deleted | Recipe_already_added | Recipe_not_added

datatype 'r data = Message message | Serialized 'r

datatype 'r Response = Response (data: "'r data") (status: nat)

definition HTTP_201_CREATED :: nat where
  "HTTP_201_CREATED = 201"

definition HTTP_204_NO_CONTENT :: nat where
  "HTTP_204_NO_CONTENT = 204"

definition HTTP_400_BAD_REQUEST :: nat where
  "HTTP_400_BAD_REQUEST = 400"

subsection \<open>FollowViewSet\<close>

text \<open>
  In all views \<open>user\<close> is \<open>request.user\<close>, the authenticated user. A view returns its
  response, or the exception that left it, together with the database it leaves behind.
  A membership row carries no data beyond its two foreign keys, so \<open>delete()\<close> on the
  one row that \<open>get\<close> found removes that row from the table. The response of a delete
  view never carries serializer data, so its data parameter is \<open>unit\<close>.
\<close>

definition FollowViewSet_post ::
  "(nat \<Rightarrow> 'r) \<Rightarrow> nat \<Rightarrow> nat \<Rightarrow> db \<Rightarrow> (exn + 'r Response) \<times> db" where
  "FollowViewSet_post serializer user user_id s =
     (case get_object_or_404 (CustomUser_objects s) (\<lambda>u. u = user_id) of
        Inl e \<Rightarrow> (Inl e, s)
      | Inr author' \<Rightarrow>
          if filter (\<lambda>f. f_user f = user \<and> f_author f = author') (Follow_objects s) \<noteq> []
          then (Inr (Response (Message Already_subscribed) HTTP_400_BAD_REQUEST), s)
          else (Inr (Response (Serialized (serializer author')) HTTP_201_CREATED),
                s\<lparr>Follow_objects := Follow_objects s @ [\<lparr>f_user = user, f_author = author'\<rparr>]\<rparr>))"

definition FollowViewSet_delete :: "nat \<Rightarrow> nat \<Rightarrow> db \<Rightarrow> (exn + unit Response) \<times> db" where
  "FollowViewSet_delete user user_id s =
     (case get_object_or_404 (CustomUser_objects s) (\<lambda>u. u = user_id) of
        Inl e \<Rightarrow> (Inl e, s)
      | Inr author' \<Rightarrow>
          (case get_object_or_404 (Follow_objects s)
                  (\<lambda>f. f_user f = user \<and> f_author f = author') of
             Inl e \<Rightarrow> (Inl e, s)
           | Inr follow \<Rightarrow>
               (Inr (Response (Message Deleted) HTTP_204_NO_CONTENT),
                s\<lparr>Follow_objects := remove1 follow (Follow_objects s)\<rparr>)))"

subsection \<open>get_post and get_delete\<close>

text \<open>\<open>acted_model\<close> is the model class the view passes: \<open>Favorite\<close> in
  \<open>FavouriteViewSet\<close>, \<open>ShoppingList\<close> in \<open>ShoppingListViewSet\<close>.\<close>

datatype acted_model = Favorite | ShoppingList

fun objects :: "acted_model \<Rightarrow> db \<Rightarrow> membership list" where
  "objects Favorite s = Favorite_objects s"
| "objects ShoppingList s = ShoppingList_objects s"

fun objects_update :: "acted_model \<Rightarrow> (membership list \<Rightarrow> membership list) \<Rightarrow> db \<Rightarrow> db" where
  "objects_update Favorite f s = s\<lparr>Favorite_objects := f (Favorite_objects s)\<rparr>"
| "objects_update ShoppingList f s = s\<lparr>ShoppingList_objects := f (ShoppingList_objects s)\<rparr>"

definition get_post ::
  "(Recipe \<Rightarrow> 'r) \<Rightarrow> nat \<Rightarrow> nat \<Rightarrow> acted_model \<Rightarrow> db \<Rightarrow> (exn + 'r Response) \<times> db" where
  "get_post serializer user rid acted s =
     (case get_object_or_404 (Recipe_objects s) (\<lambda>r. recipe_id r = rid) of
        Inl e \<Rightarrow> (Inl e, s)
      | Inr rcp \<Rightarrow>
          if filter (\<lambda>m. m_user m = user \<and> m_recipe m = recipe_id rcp) (objects acted s) \<noteq> []
          then (Inr (Response (Message Recipe_already_added) HTTP_400_BAD_REQUEST), s)
          else (Inr (Response (Serialized (serializer rcp)) HTTP_201_CREATED),
                objects_update acted
                  (\<lambda>rows. rows @ [\<lparr>m_user = user, m_recipe = recipe_id rcp\<rparr>]) s))"

definition get_delete :: "nat \<Rightarrow> nat \<Rightarrow> acted_model \<Rightarrow> db \<Rightarrow> (exn + unit Response) \<times> db" where
  "get_delete user rid acted s =
     (case get_object_or_404 (Recipe_objects s) (\<lambda>r. recipe_id r = rid) of
        Inl e \<Rightarrow> (Inl e, s)
      | Inr rcp \<Rightarrow>
          (case get_object_or_404 (objects acted s)
                  (\<lambda>m. m_user m = user \<and> m_recipe m = recipe_id rcp) of
             Inl e \<Rightarrow> (Inl e, s)
           | Inr favorite_obj \<Rightarrow>
               if \<not> instance_bool favorite_obj
               then (Inr (Response (Message Recipe_not_added) HTTP_400_BAD_REQUEST), s)
               else (Inr (Response (Message Deleted) HTTP_204_NO_CONTENT),
                     objects_update acted (remove1 favorite_obj) s)))"

section \<open>Validation of the cooking time (Recipe.cooking_time)\<close>

text \<open>
  Django's \<open>MinValueValidator(limit, message)\<close> raises \<open>ValidationError\<close> with its
  message when the value is below the limit. \<open>Min_cooking_time\<close> stands for the Russian
  message of models.py line 79. A field runs all its validators and fails with the
  collected errors when there is one.
\<close>

datatype validation_message = Min_cooking_time | Other_message

datatype ValidationError = ValidationError validation_message

type_synonym validator = "int \<Rightarrow> ValidationError + unit"

definition MinValueValidator :: "int \<Rightarrow> validation_message \<Rightarrow> validator" where
  "MinValueValidator limit_value msg v =
     (if v < limit_value then Inl (ValidationError msg) else Inr ())"

definition run_validators :: "validator list \<Rightarrow> int \<Rightarrow> ValidationError list + unit" where
  "run_validators vs v =
     (let errors = concat (map (\<lambda>val. case val v of Inl e \<Rightarrow> [e] | Inr _ \<Rightarrow> []) vs)
      in if errors \<noteq> [] then Inl errors else Inr ())"

text \<open>The validators the field declares (models.py lines 77 to 79).\<close>

definition cooking_time_validators :: "validator list" where
  "cooking_time_validators = [MinValueValidator 1 Min_cooking_time]"

text \<open>
  Modelled from the spec: recipe creation (the serializer \<open>CreateRecipeSerializer\<close> that
  \<open>RecipesViewSet\<close> names is not part of the sources). Creation validates the recipe; a
  recipe whose cooking time fails validation is rejected and nothing is stored,
  otherwise the recipe becomes a row of the recipe table. \<open>extra\<close> stands for the
  validators the framework adds to the declared ones (the range of the column type).
\<close>

definition create_recipe :: "validator list \<Rightarrow> Recipe \<Rightarrow> db \<Rightarrow> (ValidationError list + unit) \<times> db" where
  "create_recipe extra rcp s =
     (case run_validators (cooking_time_validators @ extra) (cooking_time rcp) of
        Inl errors \<Rightarrow> (Inl errors, s)
      | Inr _ \<Rightarrow> (Inr (), s\<lparr>Recipe_objects := Recipe_objects s @ [rcp]\<rparr>))"

fun create_recipes :: "validator list \<Rightarrow> Recipe list \<Rightarrow> db \<Rightarrow> db" where
  "create_recipes extra [] s = s"
| "create_recipes extra (rcp # rcps) s = create_recipes extra rcps (snd (create_recipe extra rcp s))"

section \<open>Example data\<close>

text \<open>Concrete databases on which the views are evaluated below.\<close>

definition example_recipe :: "nat \<Rightarrow> int \<Rightarrow> Recipe" where
  "example_recipe n t =
     \<lparr>recipe_id = n, author = 1, ingredients = [], tags = [], image = ''recipes/r.png'',
      recipe_name = ''r'', recipe_text = ''t'', cooking_time = t\<rparr>"

definition db_empty :: db where
  "db_empty =
     \<lparr>CustomUser_objects = [], Recipe_objects = [], Ingredient_objects = [],
      IngredientInRecipe_objects = [], Favorite_objects = [], ShoppingList_objects = [],
      Follow_objects = []\<rparr>"

text \<open>Users 1 and 2 and recipe 7; user 1 has recipe 7 on the shopping list.\<close>

definition db_members :: db where
  "db_members =
     db_empty\<lparr>CustomUser_objects := [1, 2], Recipe_objects := [example_recipe 7 30],
       ShoppingList_objects := [\<lparr>m_user = 1, m_recipe = 7\<rparr>]\<rparr>"

text \<open>User 1 follows user 2.\<close>

definition db_follows :: db where
  "db_follows = db_members\<lparr>Follow_objects := [\<lparr>f_user = 1, f_author = 2\<rparr>]\<rparr>"

text \<open>
  Two ingredient records with the same name and different units. Recipes 1 and 2 use
  ingredient 1 (100 and 50), recipe 2 also uses ingredient 2 (3); user 1 has both recipes
  on the shopping list.
\<close>

definition db_sugar :: db where
  "db_sugar =
     db_empty\<lparr>CustomUser_objects := [1],
       Recipe_objects := [example_recipe 1 10, example_recipe 2 20],
       Ingredient_objects :=
         [\<lparr>ingredient_id = 1, ingredient_name = ''sugar'', measurement_unit = ''g''\<rparr>,
          \<lparr>ingredient_id = 2, ingredient_name = ''sugar'', measurement_unit = ''tbsp''\<rparr>],
       IngredientInRecipe_objects :=
         [\<lparr>ingredient = 1, recipe = 1, amount = 100\<rparr>,
          \<lparr>ingredient = 1, recipe = 2, amount = 50\<rparr>,
          \<lparr>ingredient = 2, recipe = 2, amount = 3\<rparr>],
       ShoppingList_objects := [\<lparr>m_user = 1, m_recipe = 1\<rparr>, \<lparr>m_user = 1, m_recipe = 2\<rparr>]\<rparr>"

text \<open>One recipe that uses two ingredient records of the same name, on the shopping list
  of user 1.\<close>

definition db_salt :: db where
  "db_salt =
     db_empty\<lparr>CustomUser_objects := [1],
       Recipe_objects := [example_recipe 1 10],
       Ingredient_objects :=
         [\<lparr>ingredient_id = 1, ingredient_name = ''salt'', measurement_unit = ''g''\<rparr>,
          \<lparr>ingredient_id = 2, ingredient_name = ''salt'', measurement_unit = ''pinch''\<rparr>],
       IngredientInRecipe_objects :=
         [\<lparr>ingredient = 1, recipe = 1, amount = 5\<rparr>,
          \<lparr>ingredient = 2, recipe = 1, amount = 1\<rparr>],
       ShoppingList_objects := [\<lparr>m_user = 1, m_recipe = 1\<rparr>]\<rparr>"

text \<open>Recipes 1 and 2 both use flour (200 and 50) and recipe 2 uses milk (1); user 1 has
  both on the shopping list, user 2 has an empty shopping list.\<close>

definition db_flour :: db where
  "db_flour =
     db_empty\<lparr>CustomUser_objects := [1, 2],
       Recipe_objects := [example_recipe 1 10, example_recipe 2 20],
       Ingredient_objects :=
         [\<lparr>ingredient_id = 1, ingredient_name = ''flour'', measurement_unit = ''g''\<rparr>,
          \<lparr>ingredient_id = 2, ingredient_name = ''milk'', measurement_unit = ''l''\<rparr>],
       IngredientInRecipe_objects :=
         [\<lparr>ingredient = 1, recipe = 1, amount = 200\<rparr>,
          \<lparr>ingredient = 2, recipe = 2, amount = 1\<rparr>,
          \<lparr>ingredient = 1, recipe = 2, amount = 50\<rparr>],
       ShoppingList_objects := [\<lparr>m_user = 1, m_recipe = 1\<rparr>, \<lparr>m_user = 1, m_recipe = 2\<rparr>]\<rparr>"

section \<open>Decimal notation\<close>

text \<open>
  The number a string of decimal digits denotes. It is not part of the program; it
  states what \<open>str_nat\<close>, the model of Python's printing of an int, has to produce.
\<close>

definition digit_value :: "char \<Rightarrow> nat" where
  "digit_value c = of_char c - 48"

definition decimal_value :: "string \<Rightarrow> nat" where
  "decimal_value cs = foldl (\<lambda>acc c. 10 * acc + digit_value c) 0 cs"

section \<open>Properties of the membership views\<close>

subsection \<open>Lookups and single rows\<close>

lemma get_object_or_404_cases:
  "get_object_or_404 objs p = Inl Http404 \<longleftrightarrow> filter p objs = []"
  "get_object_or_404 objs p = Inr x \<longleftrightarrow> filter p objs = [x]"
  "get_object_or_404 objs p = Inl MultipleObjectsReturned \<longleftrightarrow> length (filter p objs) \<ge> 2"
  by (auto simp: get_object_or_404_def split: list.splits)

lemma filter_single_holds:
  assumes "filter p xs = [x]"
  shows "p x \<and> x \<in> set xs"
proof -
  have "x \<in> set (filter p xs)" using assms by simp
  then show ?thesis by simp
qed

lemma get_object_or_404_holds:
  "get_object_or_404 objs p = Inr x \<Longrightarrow> p x \<and> x \<in> set objs"
  using filter_single_holds[of p objs x] by (simp add: get_object_or_404_cases)

lemma filter_single_remove1:
  "filter p xs = [x] \<Longrightarrow> remove1 x xs = filter (\<lambda>y. \<not> p y) xs"
proof (induction xs)
  case Nil then show ?case by simp
next
  case (Cons a xs)
  show ?case
  proof (cases "p a")
    case True
    with Cons.prems have "a = x" "filter p xs = []" by auto
    then show ?thesis using True by (auto simp: filter_empty_conv filter_id_conv)
  next
    case False
    with Cons.prems have "filter p xs = [x]" by simp
    moreover have "p x" using Cons.prems filter_single_holds by fast
    ultimately show ?thesis using False Cons.IH by auto
  qed
qed

lemma length_filter_single:
  "filter p xs = [x] \<Longrightarrow> Suc (length (filter (\<lambda>y. \<not> p y) xs)) = length xs"
  using sum_length_filter_compl[of p xs] by simp

lemma remove1_fresh: "x \<notin> set xs \<Longrightarrow> remove1 x (xs @ [x]) = xs"
  by (simp add: remove1_append)

lemma objects_objects_update [simp]: "objects acted (objects_update acted f s) = f (objects acted s)"
  by (cases acted) simp_all

lemma get_post_exists:
  assumes "get_object_or_404 (Recipe_objects s) (\<lambda>r. recipe_id r = rid) = Inr rcp"
    and "filter (\<lambda>m. m_user m = user \<and> m_recipe m = rid) (objects acted s) \<noteq> []"
  shows "get_post ser user rid acted s = (Inr (Response (Message Recipe_already_added) 400), s)"
proof -
  have "recipe_id rcp = rid"
    using get_object_or_404_holds[OF assms(1)] by simp
  then show ?thesis using assms by (simp add: get_post_def HTTP_400_BAD_REQUEST_def)
qed

lemma get_post_fresh:
  assumes "get_object_or_404 (Recipe_objects s) (\<lambda>r. recipe_id r = rid) = Inr rcp"
    and "filter (\<lambda>m. m_user m = user \<and> m_recipe m = rid) (objects acted s) = []"
  shows "get_post ser user rid acted s =
           (Inr (Response (Serialized (ser rcp)) 201),
            objects_update acted (\<lambda>rows. rows @ [\<lparr>m_user = user, m_recipe = rid\<rparr>]) s)"
proof -
  have "recipe_id rcp = rid"
    using get_object_or_404_holds[OF assms(1)] by simp
  then show ?thesis using assms by (simp add: get_post_def HTTP_201_CREATED_def)
qed

lemma Recipe_objects_objects_update [simp]:
  "Recipe_objects (objects_update acted f s) = Recipe_objects s"
  by (cases acted) simp_all

lemma get_post_twice:
  assumes t: "get_object_or_404 (Recipe_objects s) (\<lambda>r. recipe_id r = rid) = Inr rcp"
    and le: "length (filter (\<lambda>m. m_user m = user \<and> m_recipe m = rid) (objects acted s)) \<le> 1"
  shows "fst (get_post ser user rid acted (snd (get_post ser user rid acted s)))
           = Inr (Response (Message Recipe_already_added) 400)
         \<and> length (filter (\<lambda>m. m_user m = user \<and> m_recipe m = rid)
              (objects acted (snd (get_post ser user rid acted (snd (get_post ser user rid acted s)))))) = 1"
proof (cases "filter (\<lambda>m. m_user m = user \<and> m_recipe m = rid) (objects acted s) = []")
  case True
  let ?s1 = "objects_update acted (\<lambda>rows. rows @ [\<lparr>m_user = user, m_recipe = rid\<rparr>]) s"
  have 1: "get_post ser user rid acted s = (Inr (Response (Serialized (ser rcp)) 201), ?s1)"
    by (rule get_post_fresh[OF t True])
  have t1: "get_object_or_404 (Recipe_objects ?s1) (\<lambda>r. recipe_id r = rid) = Inr rcp"
    using t by simp
  have ne: "filter (\<lambda>m. m_user m = user \<and> m_recipe m = rid) (objects acted ?s1) \<noteq> []"
    by simp
  have 2: "get_post ser user rid acted ?s1 = (Inr (Response (Message Recipe_already_added) 400), ?s1)"
    by (rule get_post_exists[OF t1 ne])
  show ?thesis using 1 2 True by simp
next
  case False
  have 1: "get_post ser user rid acted s = (Inr (Response (Message Recipe_already_added) 400), s)"
    by (rule get_post_exists[OF t False])
  have "length (filter (\<lambda>m. m_user m = user \<and> m_recipe m = rid) (objects acted s)) = 1"
    using False le by (cases "filter (\<lambda>m. m_user m = user \<and> m_recipe m = rid) (objects acted s)") auto
  then show ?thesis using 1 by simp
qed

lemma follow_post_exists:
  assumes "get_object_or_404 (CustomUser_objects s) (\<lambda>u. u = aid) = Inr a"
    and "filter (\<lambda>f. f_user f = user \<and> f_author f = aid) (Follow_objects s) \<noteq> []"
  shows "FollowViewSet_post ser user aid s = (Inr (Response (Message Already_subscribed) 400), s)"
proof -
  have "a = aid"
    using get_object_or_404_holds[OF assms(1)] by simp
  then show ?thesis using assms by (simp add: FollowViewSet_post_def HTTP_400_BAD_REQUEST_def)
qed

lemma follow_post_fresh:
  assumes "get_object_or_404 (CustomUser_objects s) (\<lambda>u. u = aid) = Inr a"
    and "filter (\<lambda>f. f_user f = user \<and> f_author f = aid) (Follow_objects s) = []"
  shows "FollowViewSet_post ser user aid s =
           (Inr (Response (Serialized (ser a)) 201),
            s\<lparr>Follow_objects := Follow_objects s @ [\<lparr>f_user = user, f_author = aid\<rparr>]\<rparr>)"
proof -
  have "a = aid"
    using get_object_or_404_holds[OF assms(1)] by simp
  then show ?thesis using assms by (simp add: FollowViewSet_post_def HTTP_201_CREATED_def)
qed

lemma follow_post_twice:
  assumes t: "get_object_or_404 (CustomUser_objects s) (\<lambda>u. u = aid) = Inr a"
    and le: "length (filter (\<lambda>f. f_user f = user \<and> f_author f = aid) (Follow_objects s)) \<le> 1"
  shows "fst (FollowViewSet_post ser user aid (snd (FollowViewSet_post ser user aid s)))
           = Inr (Response (Message Already_subscribed) 400)
         \<and> length (filter (\<lambda>f. f_user f = user \<and> f_author f = aid)
              (Follow_objects (snd (FollowViewSet_post ser user aid (snd (FollowViewSet_post ser user aid s)))))) = 1"
proof (cases "filter (\<lambda>f. f_user f = user \<and> f_author f = aid) (Follow_objects s) = []")
  case True
  let ?s1 = "s\<lparr>Follow_objects := Follow_objects s @ [\<lparr>f_user = user, f_author = aid\<rparr>]\<rparr>"
  have 1: "FollowViewSet_post ser user aid s = (Inr (Response (Serialized (ser a)) 201), ?s1)"
    by (rule follow_post_fresh[OF t True])
  have t1: "get_object_or_404 (CustomUser_objects ?s1) (\<lambda>u. u = aid) = Inr a"
    using t by simp
  have ne: "filter (\<lambda>f. f_user f = user \<and> f_author f = aid) (Follow_objects ?s1) \<noteq> []"
    by simp
  have 2: "FollowViewSet_post ser user aid ?s1 = (Inr (Response (Message Already_subscribed) 400), ?s1)"
    by (rule follow_post_exists[OF t1 ne])
  show ?thesis using 1 2 True by simp
next
  case False
  have 1: "FollowViewSet_post ser user aid s = (Inr (Response (Message Already_subscribed) 400), s)"
    by (rule follow_post_exists[OF t False])
  have "length (filter (\<lambda>f. f_user f = user \<and> f_author f = aid) (Follow_objects s)) = 1"
    using False le by (cases "filter (\<lambda>f. f_user f = user \<and> f_author f = aid) (Follow_objects s)") auto
  then show ?thesis using 1 by simp
qed


lemma get_delete_no_target:
  assumes "filter (\<lambda>r. recipe_id r = rid) (Recipe_objects s) = []"
  shows "get_delete user rid acted s = (Inl Http404, s)"
  using assms by (simp add: get_delete_def get_object_or_404_def)

lemma get_delete_no_row:
  assumes "get_object_or_404 (Recipe_objects s) (\<lambda>r. recipe_id r = rid) = Inr rcp"
    and "filter (\<lambda>m. m_user m = user \<and> m_recipe m = rid) (objects acted s) = []"
  shows "get_delete user rid acted s = (Inl Http404, s)"
proof -
  have "recipe_id rcp = rid"
    using get_object_or_404_holds[OF assms(1)] by simp
  then show ?thesis using assms by (simp add: get_delete_def get_object_or_404_def)
qed

lemma get_delete_row:
  assumes "get_object_or_404 (Recipe_objects s) (\<lambda>r. recipe_id r = rid) = Inr rcp"
    and "filter (\<lambda>m. m_user m = user \<and> m_recipe m = rid) (objects acted s) = [row]"
  shows "get_delete user rid acted s =
           (Inr (Response (Message Deleted) 204),
            objects_update acted (filter (\<lambda>m. \<not> (m_user m = user \<and> m_recipe m = rid))) s)"
proof -
  have "recipe_id rcp = rid"
    using get_object_or_404_holds[OF assms(1)] by simp
  moreover have "objects_update acted (remove1 row) s
      = objects_update acted (filter (\<lambda>m. \<not> (m_user m = user \<and> m_recipe m = rid))) s"
    using filter_single_remove1[OF assms(2)] by (cases acted) simp_all
  ultimately show ?thesis using assms
    by (simp add: get_delete_def get_object_or_404_def instance_bool_def HTTP_204_NO_CONTENT_def)
qed

lemma get_delete_unchanged:
  "fst (get_delete user rid acted s) \<noteq> Inr (Response (Message Deleted) 204)
     \<Longrightarrow> snd (get_delete user rid acted s) = s"
  by (auto simp: get_delete_def instance_bool_def HTTP_204_NO_CONTENT_def split: sum.splits)

lemma follow_delete_no_target:
  assumes "filter (\<lambda>u. u = aid) (CustomUser_objects s) = []"
  shows "FollowViewSet_delete user aid s = (Inl Http404, s)"
  using assms by (simp add: FollowViewSet_delete_def get_object_or_404_def)

lemma follow_delete_no_row:
  assumes "get_object_or_404 (CustomUser_objects s) (\<lambda>u. u = aid) = Inr a"
    and "filter (\<lambda>f. f_user f = user \<and> f_author f = aid) (Follow_objects s) = []"
  shows "FollowViewSet_delete user aid s = (Inl Http404, s)"
proof -
  have "a = aid"
    using get_object_or_404_holds[OF assms(1)] by simp
  then show ?thesis using assms by (simp add: FollowViewSet_delete_def get_object_or_404_def)
qed

lemma follow_delete_row:
  assumes "get_object_or_404 (CustomUser_objects s) (\<lambda>u. u = aid) = Inr a"
    and "filter (\<lambda>f. f_user f = user \<and> f_author f = aid) (Follow_objects s) = [row]"
  shows "FollowViewSet_delete user aid s =
           (Inr (Response (Message Deleted) 204),
            s\<lparr>Follow_objects := filter (\<lambda>f. \<not> (f_user f = user \<and> f_author f = aid)) (Follow_objects s)\<rparr>)"
proof -
  have "a = aid"
    using get_object_or_404_holds[OF assms(1)] by simp
  then show ?thesis using assms filter_single_remove1[OF assms(2)]
    by (simp add: FollowViewSet_delete_def get_object_or_404_def HTTP_204_NO_CONTENT_def)
qed

lemma follow_delete_unchanged:
  "fst (FollowViewSet_delete user aid s) \<noteq> Inr (Response (Message Deleted) 204)
     \<Longrightarrow> snd (FollowViewSet_delete user aid s) = s"
  by (auto simp: FollowViewSet_delete_def HTTP_204_NO_CONTENT_def split: sum.splits)

lemma follow_round_trip_state:
  assumes "filter (\<lambda>f. f_user f = user \<and> f_author f = aid) (Follow_objects s) = []"
  shows "snd (FollowViewSet_delete user aid (snd (FollowViewSet_post ser user aid s))) = s"
proof (cases "get_object_or_404 (CustomUser_objects s) (\<lambda>u. u = aid)")
  case (Inl e)
  then show ?thesis by (simp add: FollowViewSet_post_def FollowViewSet_delete_def)
next
  case (Inr a)
  let ?row = "\<lparr>f_user = user, f_author = aid\<rparr>"
  let ?s1 = "s\<lparr>Follow_objects := Follow_objects s @ [?row]\<rparr>"
  have 1: "FollowViewSet_post ser user aid s = (Inr (Response (Serialized (ser a)) 201), ?s1)"
    by (rule follow_post_fresh[OF Inr assms])
  have t1: "get_object_or_404 (CustomUser_objects ?s1) (\<lambda>u. u = aid) = Inr a"
    using Inr by simp
  have r1: "filter (\<lambda>f. f_user f = user \<and> f_author f = aid) (Follow_objects ?s1) = [?row]"
    using assms by simp
  have "snd (FollowViewSet_delete user aid ?s1)
          = ?s1\<lparr>Follow_objects := filter (\<lambda>f. \<not> (f_user f = user \<and> f_author f = aid)) (Follow_objects ?s1)\<rparr>"
    by (subst follow_delete_row[OF t1 r1]) simp
  moreover have "filter (\<lambda>f. \<not> (f_user f = user \<and> f_author f = aid)) (Follow_objects s) = Follow_objects s"
    using assms by (simp add: filter_empty_conv filter_id_conv)
  ultimately show ?thesis using 1 by simp
qed

subsection \<open>Adding a membership\<close>

text \<open>
  Claim C5. For a target that exists (a recipe for the kinds favourite and shopping
  list, an author for the kind follow): when a row for the user and the target is
  already stored, the add operation answers with status 400 and the database is
  unchanged; when there is none, it stores one row and answers with status 201 and the
  serialized target. After two add calls in sequence, starting with at most one such
  row, the second call has answered 400 and exactly one row is stored.
\<close>

theorem add_membership:
  "(get_object_or_404 (Recipe_objects s) (\<lambda>r. recipe_id r = rid) = Inr rcp \<longrightarrow>
      get_post ser user rid acted s =
        (if filter (\<lambda>m. m_user m = user \<and> m_recipe m = rid) (objects acted s) \<noteq> []
         then (Inr (Response (Message Recipe_already_added) 400), s)
         else (Inr (Response (Serialized (ser rcp)) 201),
               objects_update acted (\<lambda>rows. rows @ [\<lparr>m_user = user, m_recipe = rid\<rparr>]) s))
      \<and> (length (filter (\<lambda>m. m_user m = user \<and> m_recipe m = rid) (objects acted s)) \<le> 1 \<longrightarrow>
           fst (get_post ser user rid acted (snd (get_post ser user rid acted s)))
             = Inr (Response (Message Recipe_already_added) 400)
           \<and> length (filter (\<lambda>m. m_user m = user \<and> m_recipe m = rid)
                (objects acted (snd (get_post ser user rid acted (snd (get_post ser user rid acted s))))))
               = 1))
   \<and> (get_object_or_404 (CustomUser_objects s) (\<lambda>u. u = aid) = Inr a \<longrightarrow>
      FollowViewSet_post ser' user aid s =
        (if filter (\<lambda>f. f_user f = user \<and> f_author f = aid) (Follow_objects s) \<noteq> []
         then (Inr (Response (Message Already_subscribed) 400), s)
         else (Inr (Response (Serialized (ser' a)) 201),
               s\<lparr>Follow_objects := Follow_objects s @ [\<lparr>f_user = user, f_author = aid\<rparr>]\<rparr>))
      \<and> (length (filter (\<lambda>f. f_user f = user \<and> f_author f = aid) (Follow_objects s)) \<le> 1 \<longrightarrow>
           fst (FollowViewSet_post ser' user aid (snd (FollowViewSet_post ser' user aid s)))
             = Inr (Response (Message Already_subscribed) 400)
           \<and> length (filter (\<lambda>f. f_user f = user \<and> f_author f = aid)
                (Follow_objects (snd (FollowViewSet_post ser' user aid
                   (snd (FollowViewSet_post ser' user aid s)))))) = 1))"
proof (rule conjI; rule impI)
  assume t: "get_object_or_404 (Recipe_objects s) (\<lambda>r. recipe_id r = rid) = Inr rcp"
  have 1: "get_post ser user rid acted s =
       (if filter (\<lambda>m. m_user m = user \<and> m_recipe m = rid) (objects acted s) \<noteq> []
        then (Inr (Response (Message Recipe_already_added) 400), s)
        else (Inr (Response (Serialized (ser rcp)) 201),
              objects_update acted (\<lambda>rows. rows @ [\<lparr>m_user = user, m_recipe = rid\<rparr>]) s))"
    using get_post_exists[OF t, of user acted ser] get_post_fresh[OF t, of user acted ser]
    by (cases "filter (\<lambda>m. m_user m = user \<and> m_recipe m = rid) (objects acted s) = []") simp_all
  show "get_post ser user rid acted s =
        (if filter (\<lambda>m. m_user m = user \<and> m_recipe m = rid) (objects acted s) \<noteq> []
         then (Inr (Response (Message Recipe_already_added) 400), s)
         else (Inr (Response (Serialized (ser rcp)) 201),
               objects_update acted (\<lambda>rows. rows @ [\<lparr>m_user = user, m_recipe = rid\<rparr>]) s))
      \<and> (length (filter (\<lambda>m. m_user m = user \<and> m_recipe m = rid) (objects acted s)) \<le> 1 \<longrightarrow>
           fst (get_post ser user rid acted (snd (get_post ser user rid acted s)))
             = Inr (Response (Message Recipe_already_added) 400)
           \<and> length (filter (\<lambda>m. m_user m = user \<and> m_recipe m = rid)
                (objects acted (snd (get_post ser user rid acted (snd (get_post ser user rid acted s))))))
               = 1)"
    using 1 get_post_twice[OF t, of user acted ser] by blast
next
  assume t: "get_object_or_404 (CustomUser_objects s) (\<lambda>u. u = aid) = Inr a"
  have 2: "FollowViewSet_post ser' user aid s =
       (if filter (\<lambda>f. f_user f = user \<and> f_author f = aid) (Follow_objects s) \<noteq> []
        then (Inr (Response (Message Already_subscribed) 400), s)
        else (Inr (Response (Serialized (ser' a)) 201),
              s\<lparr>Follow_objects := Follow_objects s @ [\<lparr>f_user = user, f_author = aid\<rparr>]\<rparr>))"
    using follow_post_exists[OF t, of user ser'] follow_post_fresh[OF t, of user ser']
    by (cases "filter (\<lambda>f. f_user f = user \<and> f_author f = aid) (Follow_objects s) = []") simp_all
  show "FollowViewSet_post ser' user aid s =
        (if filter (\<lambda>f. f_user f = user \<and> f_author f = aid) (Follow_objects s) \<noteq> []
         then (Inr (Response (Message Already_subscribed) 400), s)
         else (Inr (Response (Serialized (ser' a)) 201),
               s\<lparr>Follow_objects := Follow_objects s @ [\<lparr>f_user = user, f_author = aid\<rparr>]\<rparr>))
      \<and> (length (filter (\<lambda>f. f_user f = user \<and> f_author f = aid) (Follow_objects s)) \<le> 1 \<longrightarrow>
           fst (FollowViewSet_post ser' user aid (snd (FollowViewSet_post ser' user aid s)))
             = Inr (Response (Message Already_subscribed) 400)
           \<and> length (filter (\<lambda>f. f_user f = user \<and> f_author f = aid)
                (Follow_objects (snd (FollowViewSet_post ser' user aid
                   (snd (FollowViewSet_post ser' user aid s)))))) = 1)"
    using 2 follow_post_twice[OF t, of user ser'] by blast
qed

theorem add_membership_witness:
  "get_object_or_404 (Recipe_objects db_members) (\<lambda>r. recipe_id r = 7) = Inr (example_recipe 7 30)
   \<and> get_object_or_404 (CustomUser_objects db_members) (\<lambda>u. u = 2) = Inr 2
   \<and> get_post recipe_name 1 7 Favorite db_members =
       (Inr (Response (Serialized ''r'') 201),
        db_members\<lparr>Favorite_objects := [\<lparr>m_user = 1, m_recipe = 7\<rparr>]\<rparr>)
   \<and> get_post recipe_name 1 7 ShoppingList db_members =
       (Inr (Response (Message Recipe_already_added) 400), db_members)
   \<and> fst (get_post recipe_name 1 7 Favorite (snd (get_post recipe_name 1 7 Favorite db_members)))
       = Inr (Response (Message Recipe_already_added) 400)
   \<and> length (filter (\<lambda>m. m_user m = 1 \<and> m_recipe m = 7)
        (objects Favorite (snd (get_post recipe_name 1 7 Favorite
           (snd (get_post recipe_name 1 7 Favorite db_members)))))) = 1
   \<and> FollowViewSet_post id 1 2 db_members =
       (Inr (Response (Serialized 2) 201), db_follows)
   \<and> FollowViewSet_post id 1 2 db_follows =
       (Inr (Response (Message Already_subscribed) 400), db_follows)"
proof -
  have r: "get_object_or_404 (Recipe_objects db_members) (\<lambda>r. recipe_id r = 7) = Inr (example_recipe 7 30)"
    by (simp add: db_members_def db_empty_def example_recipe_def get_object_or_404_def)
  have u: "get_object_or_404 (CustomUser_objects db_members) (\<lambda>u. u = 2) = Inr 2"
    by (simp add: db_members_def db_empty_def get_object_or_404_def)
  have r': "get_object_or_404 (Recipe_objects db_follows) (\<lambda>r. recipe_id r = 7) = Inr (example_recipe 7 30)"
    by (simp add: db_follows_def db_members_def db_empty_def example_recipe_def get_object_or_404_def)
  have u': "get_object_or_404 (CustomUser_objects db_follows) (\<lambda>u. u = 2) = Inr 2"
    by (simp add: db_follows_def db_members_def db_empty_def get_object_or_404_def)
  show ?thesis
    using r u r' u'
      add_membership[where s = db_members and rid = 7 and rcp = "example_recipe 7 30"
        and ser = recipe_name and user = 1 and acted = Favorite and aid = 2 and a = 2 and ser' = id]
      add_membership[where s = db_members and rid = 7 and rcp = "example_recipe 7 30"
        and ser = recipe_name and user = 1 and acted = ShoppingList and aid = 2 and a = 2
        and ser' = id]
      add_membership[where s = db_follows and rid = 7 and rcp = "example_recipe 7 30"
        and ser = recipe_name and user = 1 and acted = Favorite and aid = 2 and a = 2 and ser' = id]
    by (simp add: db_follows_def db_members_def db_empty_def example_recipe_def get_post_def
          FollowViewSet_post_def get_object_or_404_def HTTP_400_BAD_REQUEST_def HTTP_201_CREATED_def)
qed

subsection \<open>Removing a membership\<close>

text \<open>
  Claim C6. The remove operation fails with \<open>Http404\<close> when the target does not exist,
  and also when the target exists but no row for the user and the target is stored;
  whenever it does not answer 204 the database is unchanged; when the one row for the
  user and the target is stored, it answers 204 and exactly that row is gone from its
  table, every other table being as before.
\<close>

theorem remove_membership:
  "(filter (\<lambda>r. recipe_id r = rid) (Recipe_objects s) = [] \<longrightarrow>
      get_delete user rid acted s = (Inl Http404, s))
   \<and> (get_object_or_404 (Recipe_objects s) (\<lambda>r. recipe_id r = rid) = Inr rcp \<longrightarrow>
        (filter (\<lambda>m. m_user m = user \<and> m_recipe m = rid) (objects acted s) = [] \<longrightarrow>
           get_delete user rid acted s = (Inl Http404, s))
      \<and> (filter (\<lambda>m. m_user m = user \<and> m_recipe m = rid) (objects acted s) = [row] \<longrightarrow>
           get_delete user rid acted s =
             (Inr (Response (Message Deleted) 204),
              objects_update acted (filter (\<lambda>m. \<not> (m_user m = user \<and> m_recipe m = rid))) s)
           \<and> Suc (length (objects acted (snd (get_delete user rid acted s))))
               = length (objects acted s)))
   \<and> (fst (get_delete user rid acted s) \<noteq> Inr (Response (Message Deleted) 204) \<longrightarrow>
        snd (get_delete user rid acted s) = s)
   \<and> (filter (\<lambda>u. u = aid) (CustomUser_objects s) = [] \<longrightarrow>
        FollowViewSet_delete user aid s = (Inl Http404, s))
   \<and> (get_object_or_404 (CustomUser_objects s) (\<lambda>u. u = aid) = Inr a \<longrightarrow>
        (filter (\<lambda>f. f_user f = user \<and> f_author f = aid) (Follow_objects s) = [] \<longrightarrow>
           FollowViewSet_delete user aid s = (Inl Http404, s))
      \<and> (filter (\<lambda>f. f_user f = user \<and> f_author f = aid) (Follow_objects s) = [frow] \<longrightarrow>
           FollowViewSet_delete user aid s =
             (Inr (Response (Message Deleted) 204),
              s\<lparr>Follow_objects :=
                  filter (\<lambda>f. \<not> (f_user f = user \<and> f_author f = aid)) (Follow_objects s)\<rparr>)
           \<and> Suc (length (Follow_objects (snd (FollowViewSet_delete user aid s))))
               = length (Follow_objects s)))
   \<and> (fst (FollowViewSet_delete user aid s) \<noteq> Inr (Response (Message Deleted) 204) \<longrightarrow>
        snd (FollowViewSet_delete user aid s) = s)"
proof -
  have a: "filter (\<lambda>r. recipe_id r = rid) (Recipe_objects s) = [] \<longrightarrow>
      get_delete user rid acted s = (Inl Http404, s)"
    using get_delete_no_target by blast
  have b: "get_object_or_404 (Recipe_objects s) (\<lambda>r. recipe_id r = rid) = Inr rcp \<longrightarrow>
        (filter (\<lambda>m. m_user m = user \<and> m_recipe m = rid) (objects acted s) = [] \<longrightarrow>
           get_delete user rid acted s = (Inl Http404, s))"
    using get_delete_no_row by blast
  have c: "get_object_or_404 (Recipe_objects s) (\<lambda>r. recipe_id r = rid) = Inr rcp \<longrightarrow>
       (filter (\<lambda>m. m_user m = user \<and> m_recipe m = rid) (objects acted s) = [row] \<longrightarrow>
           get_delete user rid acted s =
             (Inr (Response (Message Deleted) 204),
              objects_update acted (filter (\<lambda>m. \<not> (m_user m = user \<and> m_recipe m = rid))) s)
           \<and> Suc (length (objects acted (snd (get_delete user rid acted s))))
               = length (objects acted s))"
  proof (intro impI)
    assume t: "get_object_or_404 (Recipe_objects s) (\<lambda>r. recipe_id r = rid) = Inr rcp"
      and r: "filter (\<lambda>m. m_user m = user \<and> m_recipe m = rid) (objects acted s) = [row]"
    show "get_delete user rid acted s =
             (Inr (Response (Message Deleted) 204),
              objects_update acted (filter (\<lambda>m. \<not> (m_user m = user \<and> m_recipe m = rid))) s)
           \<and> Suc (length (objects acted (snd (get_delete user rid acted s))))
               = length (objects acted s)"
      using get_delete_row[OF t r] length_filter_single[OF r] by simp
  qed
  have d: "fst (get_delete user rid acted s) \<noteq> Inr (Response (Message Deleted) 204) \<longrightarrow>
        snd (get_delete user rid acted s) = s"
    using get_delete_unchanged by blast
  have e: "filter (\<lambda>u. u = aid) (CustomUser_objects s) = [] \<longrightarrow>
        FollowViewSet_delete user aid s = (Inl Http404, s)"
    using follow_delete_no_target by blast
  have f: "get_object_or_404 (CustomUser_objects s) (\<lambda>u. u = aid) = Inr a \<longrightarrow>
        (filter (\<lambda>f. f_user f = user \<and> f_author f = aid) (Follow_objects s) = [] \<longrightarrow>
           FollowViewSet_delete user aid s = (Inl Http404, s))"
    using follow_delete_no_row by blast
  have g: "get_object_or_404 (CustomUser_objects s) (\<lambda>u. u = aid) = Inr a \<longrightarrow>
      (filter (\<lambda>f. f_user f = user \<and> f_author f = aid) (Follow_objects s) = [frow] \<longrightarrow>
           FollowViewSet_delete user aid s =
             (Inr (Response (Message Deleted) 204),
              s\<lparr>Follow_objects :=
                  filter (\<lambda>f. \<not> (f_user f = user \<and> f_author f = aid)) (Follow_objects s)\<rparr>)
           \<and> Suc (length (Follow_objects (snd (FollowViewSet_delete user aid s))))
               = length (Follow_objects s))"
  proof (intro impI)
    assume t: "get_object_or_404 (CustomUser_objects s) (\<lambda>u. u = aid) = Inr a"
      and r: "filter (\<lambda>f. f_user f = user \<and> f_author f = aid) (Follow_objects s) = [frow]"
    show "FollowViewSet_delete user aid s =
             (Inr (Response (Message Deleted) 204),
              s\<lparr>Follow_objects :=
                  filter (\<lambda>f. \<not> (f_user f = user \<and> f_author f = aid)) (Follow_objects s)\<rparr>)
           \<and> Suc (length (Follow_objects (snd (FollowViewSet_delete user aid s))))
               = length (Follow_objects s)"
      using follow_delete_row[OF t r] length_filter_single[OF r] by simp
  qed
  have h: "fst (FollowViewSet_delete user aid s) \<noteq> Inr (Response (Message Deleted) 204) \<longrightarrow>
        snd (FollowViewSet_delete user aid s) = s"
    using follow_delete_unchanged by blast
  show ?thesis using a b c d e f g h by blast
qed

theorem remove_membership_witness:
  "filter (\<lambda>r. recipe_id r = 9) (Recipe_objects db_follows) = []
   \<and> get_delete 1 9 ShoppingList db_follows = (Inl Http404, db_follows)
   \<and> get_object_or_404 (Recipe_objects db_follows) (\<lambda>r. recipe_id r = 7) = Inr (example_recipe 7 30)
   \<and> filter (\<lambda>m. m_user m = 1 \<and> m_recipe m = 7) (objects Favorite db_follows) = []
   \<and> get_delete 1 7 Favorite db_follows = (Inl Http404, db_follows)
   \<and> filter (\<lambda>m. m_user m = 1 \<and> m_recipe m = 7) (objects ShoppingList db_follows)
        = [\<lparr>m_user = 1, m_recipe = 7\<rparr>]
   \<and> get_delete 1 7 ShoppingList db_follows =
        (Inr (Response (Message Deleted) 204), db_follows\<lparr>ShoppingList_objects := []\<rparr>)
   \<and> filter (\<lambda>u. u = 5) (CustomUser_objects db_follows) = []
   \<and> FollowViewSet_delete 1 5 db_follows = (Inl Http404, db_follows)
   \<and> get_object_or_404 (CustomUser_objects db_follows) (\<lambda>u. u = 2) = Inr 2
   \<and> filter (\<lambda>f. f_user f = 2 \<and> f_author f = 2) (Follow_objects db_follows) = []
   \<and> FollowViewSet_delete 2 2 db_follows = (Inl Http404, db_follows)
   \<and> filter (\<lambda>f. f_user f = 1 \<and> f_author f = 2) (Follow_objects db_follows)
        = [\<lparr>f_user = 1, f_author = 2\<rparr>]
   \<and> FollowViewSet_delete 1 2 db_follows =
        (Inr (Response (Message Deleted) 204), db_members)"
  using remove_membership[where rid = 9 and s = db_follows and user = 1 and acted = ShoppingList
        and rcp = "example_recipe 7 30" and row = "\<lparr>m_user = 1, m_recipe = 7\<rparr>"
        and aid = 5 and a = 2 and frow = "\<lparr>f_user = 1, f_author = 2\<rparr>"]
    remove_membership[where rid = 7 and s = db_follows and user = 1 and acted = Favorite
        and rcp = "example_recipe 7 30" and row = "\<lparr>m_user = 1, m_recipe = 7\<rparr>"
        and aid = 2 and a = 2 and frow = "\<lparr>f_user = 1, f_author = 2\<rparr>"]
    remove_membership[where rid = 7 and s = db_follows and user = 1 and acted = ShoppingList
        and rcp = "example_recipe 7 30" and row = "\<lparr>m_user = 1, m_recipe = 7\<rparr>"
        and aid = 2 and a = 2 and frow = "\<lparr>f_user = 1, f_author = 2\<rparr>"]
    remove_membership[where rid = 7 and s = db_follows and user = 2 and acted = Favorite
        and rcp = "example_recipe 7 30" and row = "\<lparr>m_user = 1, m_recipe = 7\<rparr>"
        and aid = 2 and a = 2 and frow = "\<lparr>f_user = 1, f_author = 2\<rparr>"]
  by (simp add: db_follows_def db_members_def db_empty_def example_recipe_def
        get_object_or_404_def)

subsection \<open>Follow, then unfollow\<close>

text \<open>
  Claim C7. When the user does not follow the author, following and then unfollowing
  leaves the database, and with it the set of follow rows, as it was; for an author
  that exists the two calls answer 201 and 204.
\<close>

theorem follow_round_trip:
  assumes "filter (\<lambda>f. f_user f = user \<and> f_author f = aid) (Follow_objects s) = []"
  shows "snd (FollowViewSet_delete user aid (snd (FollowViewSet_post ser user aid s))) = s
    \<and> (get_object_or_404 (CustomUser_objects s) (\<lambda>u. u = aid) = Inr a \<longrightarrow>
         fst (FollowViewSet_post ser user aid s) = Inr (Response (Serialized (ser a)) 201)
         \<and> Follow_objects (snd (FollowViewSet_post ser user aid s))
             = Follow_objects s @ [\<lparr>f_user = user, f_author = aid\<rparr>]
         \<and> fst (FollowViewSet_delete user aid (snd (FollowViewSet_post ser user aid s)))
             = Inr (Response (Message Deleted) 204))"
proof -
  have "fst (FollowViewSet_post ser user aid s) = Inr (Response (Serialized (ser a)) 201)
         \<and> Follow_objects (snd (FollowViewSet_post ser user aid s))
             = Follow_objects s @ [\<lparr>f_user = user, f_author = aid\<rparr>]
         \<and> fst (FollowViewSet_delete user aid (snd (FollowViewSet_post ser user aid s)))
             = Inr (Response (Message Deleted) 204)"
    if t: "get_object_or_404 (CustomUser_objects s) (\<lambda>u. u = aid) = Inr a"
  proof -
    let ?row = "\<lparr>f_user = user, f_author = aid\<rparr>"
    let ?s1 = "s\<lparr>Follow_objects := Follow_objects s @ [?row]\<rparr>"
    have 1: "FollowViewSet_post ser user aid s = (Inr (Response (Serialized (ser a)) 201), ?s1)"
      by (rule follow_post_fresh[OF t assms])
    have t1: "get_object_or_404 (CustomUser_objects ?s1) (\<lambda>u. u = aid) = Inr a"
      using t by simp
    have r1: "filter (\<lambda>f. f_user f = user \<and> f_author f = aid) (Follow_objects ?s1) = [?row]"
      using assms by simp
    show ?thesis using 1 follow_delete_row[OF t1 r1] by simp
  qed
  then show ?thesis using follow_round_trip_state[OF assms, of ser] by blast
qed

theorem follow_round_trip_witness:
  "filter (\<lambda>f. f_user f = 1 \<and> f_author f = 2) (Follow_objects db_members) = []
   \<and> get_object_or_404 (CustomUser_objects db_members) (\<lambda>u. u = 2) = Inr 2
   \<and> FollowViewSet_post id 1 2 db_members = (Inr (Response (Serialized 2) 201), db_follows)
   \<and> FollowViewSet_delete 1 2 db_follows = (Inr (Response (Message Deleted) 204), db_members)
   \<and> snd (FollowViewSet_delete 1 2 (snd (FollowViewSet_post id 1 2 db_members))) = db_members"
proof -
  have h: "filter (\<lambda>f. f_user f = 1 \<and> f_author f = 2) (Follow_objects db_members) = []"
    by (simp add: db_members_def db_empty_def)
  show ?thesis
    using h follow_round_trip[OF h, of id 2]
    by (simp add: db_follows_def db_members_def db_empty_def get_object_or_404_def
          FollowViewSet_post_def FollowViewSet_delete_def HTTP_201_CREATED_def
          HTTP_204_NO_CONTENT_def)
qed

subsection \<open>The dead branch of get_delete\<close>

text \<open>
  Claim C10. The branch of \<open>get_delete\<close> behind \<open>if not favorite_obj\<close> is never taken:
  for every input the view ends with \<open>Http404\<close>, with \<open>MultipleObjectsReturned\<close> or
  with the 204 response, and never with the 400 response of that branch.
\<close>

theorem get_delete_never_400:
  "fst (get_delete user rid acted s) \<noteq> Inr (Response (Message Recipe_not_added) 400)
   \<and> fst (get_delete user rid acted s)
       \<in> {Inl Http404, Inl MultipleObjectsReturned, Inr (Response (Message Deleted) 204)}"
proof -
  have "e = Http404 \<or> e = MultipleObjectsReturned" for e
    by (cases e) simp_all
  then show ?thesis
    by (auto simp: get_delete_def instance_bool_def HTTP_204_NO_CONTENT_def split: sum.splits)
qed

section \<open>Properties of the shopping-cart export\<close>

subsection \<open>The query groups by ingredient\<close>

lemma sum_list_filter_split:
  "sum_list (map f (filter P xs))
     = sum_list (map f (filter (\<lambda>x. P x \<and> Q x) xs))
       + sum_list (map (f :: 'a \<Rightarrow> nat) (filter (\<lambda>x. P x \<and> \<not> Q x) xs))"
  by (induction xs) auto

lemma annotate_sum_keys: "fst ` set (annotate_sum rows) = fst ` set rows"
proof (induction rows rule: annotate_sum.induct)
  case 1
  then show ?case by simp
next
  case (2 k a rows)
  then show ?case by (auto simp: image_iff)
qed

lemma annotate_sum_distinct: "distinct (map fst (annotate_sum rows))"
proof (induction rows rule: annotate_sum.induct)
  case 1
  then show ?case by simp
next
  case (2 k a rows)
  have "k \<notin> fst ` set (annotate_sum (filter (\<lambda>r. fst r \<noteq> k) rows))"
    by (simp add: annotate_sum_keys image_iff)
  then show ?case using 2 by simp
qed

lemma annotate_sum_total:
  "sum_list (map snd (filter (\<lambda>r. P (fst r)) (annotate_sum rows)))
     = sum_list (map snd (filter (\<lambda>r. P (fst r)) rows))"
proof (induction rows rule: annotate_sum.induct)
  case 1
  then show ?case by simp
next
  case (2 k a rows)
  have split: "sum_list (map snd (filter (\<lambda>r. P (fst r)) rows))
      = sum_list (map snd (filter (\<lambda>r. P (fst r) \<and> fst r = k) rows))
        + sum_list (map snd (filter (\<lambda>r. P (fst r) \<and> fst r \<noteq> k) rows))"
    by (rule sum_list_filter_split)
  have eqk: "filter (\<lambda>r. P (fst r) \<and> fst r = k) rows
      = (if P k then filter (\<lambda>r. fst r = k) rows else [])"
    by (induction rows) auto
  have "sum_list (map snd (filter (\<lambda>r. P (fst r)) (annotate_sum (filter (\<lambda>r. fst r \<noteq> k) rows))))
      = sum_list (map snd (filter (\<lambda>r. P (fst r) \<and> fst r \<noteq> k) rows))"
    using 2 by (simp add: conj_commute)
  then show ?case using split eqk by simp
qed

subsection \<open>The loop groups by name\<close>

lemma buying_list_step_keys:
  "map fst (buying_list_step bl ((i, n, u), a))
     = (if n \<in> fst ` set bl then map fst bl else map fst bl @ [n])"
  by (auto simp: buying_list_step_def split: prod.splits)

lemma buying_list_step_distinct:
  assumes "distinct (map fst bl)"
  shows "distinct (map fst (buying_list_step bl row))"
proof -
  obtain i n u a where "row = ((i, n, u), a)" by (metis prod.exhaust)
  then show ?thesis using assms by (simp add: buying_list_step_keys)
qed

lemma map_of_bump:
  "map_of (map (\<lambda>(k, v). if k = n then (k, g v) else (k, v)) bl) k
     = (if k = n then map_option g (map_of bl n) else map_of bl k)"
  by (induction bl) auto

lemma buying_list_step_lookup:
  "map_of (buying_list_step bl ((i, n, u), a)) k
     = (if k = n
        then (case map_of bl n of None \<Rightarrow> Some (u, a) | Some v \<Rightarrow> Some (fst v, snd v + a))
        else map_of bl k)"
proof (cases "n \<in> fst ` set bl")
  case True
  then obtain v where "map_of bl n = Some v"
    by (metis map_of_eq_None_iff not_Some_eq)
  then show ?thesis using True
    by (simp add: buying_list_step_def map_of_bump[where g = "\<lambda>v. (fst v, snd v + a)"])
next
  case False
  then have "map_of bl n = None" by (simp add: map_of_eq_None_iff)
  then show ?thesis using False
    by (auto simp: buying_list_step_def map_add_def split: option.splits)
qed

lemma foldl_buying_list_distinct:
  "distinct (map fst bl) \<Longrightarrow> distinct (map fst (foldl buying_list_step bl rows))"
  by (induction rows arbitrary: bl) (simp_all add: buying_list_step_distinct)

lemma foldl_buying_list_lookup:
  "map_of (foldl buying_list_step bl rows) k
     = (case map_of bl k of
          Some v \<Rightarrow> Some (fst v, snd v + sum_list (map snd (filter (\<lambda>r. fst (snd (fst r)) = k) rows)))
        | None \<Rightarrow>
           (case filter (\<lambda>r. fst (snd (fst r)) = k) rows of
              [] \<Rightarrow> None
            | r # _ \<Rightarrow> Some (snd (snd (fst r)),
                 sum_list (map snd (filter (\<lambda>r. fst (snd (fst r)) = k) rows)))))"
proof (induction rows arbitrary: bl)
  case Nil
  then show ?case by (simp split: option.splits)
next
  case (Cons row rows)
  obtain i n u a where row: "row = ((i, n, u), a)" by (metis prod.exhaust)
  show ?case
    by (simp add: Cons.IH row buying_list_step_lookup split: option.splits list.splits)
qed

lemma build_buying_list_lookup:
  "map_of (build_buying_list rows) k
     = (case filter (\<lambda>r. fst (snd (fst r)) = k) rows of
          [] \<Rightarrow> None
        | r # _ \<Rightarrow> Some (snd (snd (fst r)),
             sum_list (map snd (filter (\<lambda>r. fst (snd (fst r)) = k) rows))))"
  by (simp add: build_buying_list_def foldl_buying_list_lookup)

lemma build_buying_list_distinct: "distinct (map fst (build_buying_list rows))"
  by (simp add: build_buying_list_def foldl_buying_list_distinct)


subsection \<open>An ingredient whose name no other ingredient of the list bears\<close>

lemma values_ingredient_Cons:
  "values_ingredient ings (r # cart)
     = map (\<lambda>x. ((ingredient r, ingredient_name x, measurement_unit x), amount r))
         (filter (\<lambda>x. ingredient_id x = ingredient r) ings) @ values_ingredient ings cart"
  by (simp add: values_ingredient_def)

lemma values_ingredient_total:
  assumes "filter (\<lambda>x. ingredient_id x = i) ings = [I]"
  shows "sum_list (map snd (filter (\<lambda>r. fst r = (i, ingredient_name I, measurement_unit I))
             (values_ingredient ings cart)))
         = sum_list (map amount (filter (\<lambda>r. ingredient r = i) cart))"
proof (induction cart)
  case Nil
  then show ?case by (simp add: values_ingredient_def)
next
  case (Cons r cart)
  show ?case
  proof (cases "ingredient r = i")
    case True
    then show ?thesis using Cons assms by (simp add: values_ingredient_Cons)
  next
    case False
    then have "filter (\<lambda>q. fst q = (i, ingredient_name I, measurement_unit I))
        (map (\<lambda>x. ((ingredient r, ingredient_name x, measurement_unit x), amount r))
           (filter (\<lambda>x. ingredient_id x = ingredient r) ings)) = []"
      by (auto simp: filter_empty_conv)
    then show ?thesis using Cons False by (simp add: values_ingredient_Cons)
  qed
qed

lemma values_ingredient_set:
  "q \<in> set (values_ingredient ings cart) \<longleftrightarrow>
     (\<exists>r\<in>set cart. \<exists>x\<in>set ings. ingredient_id x = ingredient r
        \<and> q = ((ingredient r, ingredient_name x, measurement_unit x), amount r))"
  by (auto simp: values_ingredient_def)

lemma buying_list_entry_of_ingredient:
  assumes uniq: "filter (\<lambda>x. ingredient_id x = i) ings = [I]"
    and used: "\<exists>r\<in>set cart. ingredient r = i"
    and noclash: "\<forall>r\<in>set cart. \<forall>x\<in>set ings.
        ingredient_id x = ingredient r \<and> ingredient_name x = ingredient_name I \<longrightarrow> ingredient r = i"
  shows "map_of (build_buying_list (annotate_sum (values_ingredient ings cart))) (ingredient_name I)
    = Some (measurement_unit I, sum_list (map amount (filter (\<lambda>r. ingredient r = i) cart)))"
proof -
  let ?n = "ingredient_name I" and ?u = "measurement_unit I"
  let ?J = "values_ingredient ings cart"
  let ?A = "annotate_sum ?J"
  have I: "ingredient_id I = i" "I \<in> set ings" using filter_single_holds[OF uniq] by simp_all
  have only: "x = I" if "x \<in> set ings" "ingredient_id x = i" for x
  proof -
    have "x \<in> set (filter (\<lambda>x. ingredient_id x = i) ings)" using that by simp
    then show ?thesis using uniq by simp
  qed
  have keyJ: "fst q = (i, ?n, ?u)" if "q \<in> set ?J" "fst (snd (fst q)) = ?n" for q
  proof -
    from that(1) obtain r x where rx: "r \<in> set cart" "x \<in> set ings" "ingredient_id x = ingredient r"
      "q = ((ingredient r, ingredient_name x, measurement_unit x), amount r)"
      by (auto simp: values_ingredient_set)
    then have "ingredient_name x = ?n" using that(2) by simp
    then have "ingredient r = i" using noclash rx by blast
    then have "x = I" using only rx by simp
    then show ?thesis using rx \<open>ingredient r = i\<close> by simp
  qed
  have keyA: "fst q = (i, ?n, ?u)" if "q \<in> set ?A" "fst (snd (fst q)) = ?n" for q
  proof -
    have "fst q \<in> fst ` set ?J" using that(1) annotate_sum_keys[of ?J] by blast
    then obtain q' where "q' \<in> set ?J" "fst q' = fst q" by auto
    then show ?thesis using keyJ[of q'] that(2) by simp
  qed
  from used obtain r where r: "r \<in> set cart" "ingredient r = i" by blast
  have "((i, ?n, ?u), amount r) \<in> set ?J"
    using r I by (auto simp: values_ingredient_set)
  then have "(i, ?n, ?u) \<in> fst ` set ?A"
    unfolding annotate_sum_keys by force
  then obtain q0 where "q0 \<in> set ?A" "fst q0 = (i, ?n, ?u)" by auto
  then have ne: "filter (\<lambda>q. fst (snd (fst q)) = ?n) ?A \<noteq> []"
    by (auto simp: filter_empty_conv intro!: bexI[of _ q0])
  then obtain q qs where q: "filter (\<lambda>q. fst (snd (fst q)) = ?n) ?A = q # qs"
    by (cases "filter (\<lambda>q. fst (snd (fst q)) = ?n) ?A") auto
  have "q \<in> set (filter (\<lambda>q. fst (snd (fst q)) = ?n) ?A)" using q by simp
  then have "fst q = (i, ?n, ?u)" using keyA by simp
  then have unit: "snd (snd (fst q)) = ?u" by simp
  have "sum_list (map snd (filter (\<lambda>q. fst (snd (fst q)) = ?n) ?A))
      = sum_list (map snd (filter (\<lambda>q. fst (snd (fst q)) = ?n) ?J))"
    by (rule annotate_sum_total[where P = "\<lambda>k. fst (snd k) = ?n"])
  also have "filter (\<lambda>q. fst (snd (fst q)) = ?n) ?J = filter (\<lambda>q. fst q = (i, ?n, ?u)) ?J"
    by (rule filter_cong) (auto dest: keyJ)
  also have "sum_list (map snd (filter (\<lambda>q. fst q = (i, ?n, ?u)) ?J))
      = sum_list (map amount (filter (\<lambda>r. ingredient r = i) cart))"
    by (rule values_ingredient_total[OF uniq])
  finally show ?thesis using q unit by (simp add: build_buying_list_lookup)
qed

lemma shopping_line_without_name_clash:
  assumes uniq: "filter (\<lambda>x. ingredient_id x = i) (Ingredient_objects s) = [I]"
    and used: "\<exists>r\<in>set (filter_recipe_in (purchases s user) (IngredientInRecipe_objects s)).
        ingredient r = i"
    and noclash: "\<forall>r\<in>set (filter_recipe_in (purchases s user) (IngredientInRecipe_objects s)).
        \<forall>x\<in>set (Ingredient_objects s).
          ingredient_id x = ingredient r \<and> ingredient_name x = ingredient_name I \<longrightarrow> ingredient r = i"
  shows "ingredient_name I @ '' - ''
           @ str_nat (sum_list (map amount (filter (\<lambda>r. ingredient r = i)
                (filter_recipe_in (purchases s user) (IngredientInRecipe_objects s)))))
           @ '' '' @ measurement_unit I @ '' '' @ [CHR 0x0A] \<in> set (wishlist s user)"
    and "length (filter (\<lambda>e. fst e = ingredient_name I)
            (build_buying_list (ingredients_query s user))) = 1"
proof -
  let ?bl = "build_buying_list (ingredients_query s user)"
  let ?total = "sum_list (map amount (filter (\<lambda>r. ingredient r = i)
                (filter_recipe_in (purchases s user) (IngredientInRecipe_objects s))))"
  have m: "map_of ?bl (ingredient_name I) = Some (measurement_unit I, ?total)"
    unfolding ingredients_query_def
    by (rule buying_list_entry_of_ingredient[OF uniq used noclash])
  then have e: "(ingredient_name I, (measurement_unit I, ?total)) \<in> set ?bl"
    by (rule map_of_SomeD)
  then have "wishlist_line (ingredient_name I, (measurement_unit I, ?total)) \<in> set (wishlist s user)"
    by (simp add: wishlist_def make_wishlist_def)
  then show "ingredient_name I @ '' - '' @ str_nat ?total
           @ '' '' @ measurement_unit I @ '' '' @ [CHR 0x0A] \<in> set (wishlist s user)"
    by (simp add: wishlist_line_def newline_def)
  have d: "distinct (map fst ?bl)" by (rule build_buying_list_distinct)
  have "length (filter (\<lambda>e. fst e = k) bl) = 1" if "distinct (map fst bl)" "k \<in> fst ` set bl"
    for k :: string and bl :: buying_list
    using that by (induction bl) (auto simp: filter_empty_conv image_iff)
  then show "length (filter (\<lambda>e. fst e = ingredient_name I) ?bl) = 1"
    using d e by (metis fst_conv image_eqI)
qed

subsection \<open>Printing the amount\<close>

lemma digit_value_digit: "d < 10 \<Longrightarrow> digit_value (''0123456789'' ! d) = d"
proof -
  assume "d < 10"
  then have "d \<in> {0,1,2,3,4,5,6,7,8,9}" by auto
  then show ?thesis by (auto simp: digit_value_def)
qed

lemma decimal_value_str_nat: "decimal_value (str_nat n) = n"
proof (induction n rule: str_nat.induct)
  case (1 n)
  show ?case
  proof (cases "n < 10")
    case True
    then show ?thesis
      by (subst str_nat.simps) (simp add: decimal_value_def digit_value_digit)
  next
    case False
    have "decimal_value (str_nat (n div 10)) = n div 10" using 1 False by simp
    then show ?thesis using False
      by (subst str_nat.simps) (simp add: decimal_value_def digit_value_digit)
  qed
qed

lemma str_nat_digits: "set (str_nat n) \<subseteq> set ''0123456789''"
proof (induction n rule: str_nat.induct)
  case (1 n)
  have d: "''0123456789'' ! k \<in> set ''0123456789''" if "k < 10" for k
    using that nth_mem[of k "''0123456789''"] by simp
  show ?case
  proof (cases "n < 10")
    case True
    then show ?thesis using d[of n] by (subst str_nat.simps) simp
  next
    case False
    then show ?thesis using 1 d[of "n mod 10"] by (subst str_nat.simps) simp
  qed
qed

subsection \<open>The report on concrete shopping lists\<close>

lemmas eval_defs = wishlist_def make_wishlist_def build_buying_list_def ingredients_query_def
  values_ingredient_def filter_recipe_in_def purchases_def buying_list_step_def wishlist_line_def
  newline_def footer_def db_empty_def

text \<open>
  Claim C1. The claim asks for one line for the ingredient record I with the amount
  q1 + q2. On \<open>db_sugar\<close> recipes 1 and 2 use ingredient 1 (sugar, g) with 100 and 50,
  and recipe 2 uses 3 of ingredient 2, another record named sugar (tbsp). The report of
  user 1 has the single ingredient line \<open>sugar - 153 g\<close>: the amount of the other record
  is added in, and no line carries the amount 150.
\<close>

theorem same_name_amounts_merged:
  "wishlist db_sugar 1 =
     [''sugar - 153 g '' @ [CHR 0x0A], [CHR 0x0A], ''FoodGram | kirilyuk.surgut@yandex.ru | 2022'']
   \<and> ''sugar - 150 g '' @ [CHR 0x0A] \<notin> set (wishlist db_sugar 1)"
  by (simp add: eval_defs db_sugar_def str_nat.simps)

text \<open>
  Claim C2. The claim asks for one line per ingredient record. On \<open>db_salt\<close> the query
  yields two groups, one per record (salt in g with amount 5, salt in pinch with amount
  1); the loop merges them under the name, and the report has one line for both,
  \<open>salt - 6 g\<close>, with the unit of the first.
\<close>

theorem same_name_one_line:
  "ingredients_query db_salt 1 = [((1, ''salt'', ''g''), 5), ((2, ''salt'', ''pinch''), 1)]
   \<and> build_buying_list (ingredients_query db_salt 1) = [(''salt'', (''g'', 6))]
   \<and> wishlist db_salt 1 =
     [''salt - 6 g '' @ [CHR 0x0A], [CHR 0x0A], ''FoodGram | kirilyuk.surgut@yandex.ru | 2022'']"
  by (simp add: eval_defs db_salt_def str_nat.simps)

text \<open>
  Claim C3. For a user with an empty shopping list the lines of the report are the blank
  line and the footer line and nothing else, and the body of the response is their
  concatenation.
\<close>

theorem empty_shopping_list:
  assumes "filter (\<lambda>p. m_user p = user) (ShoppingList_objects s) = []"
  shows "wishlist s user = [[CHR 0x0A], ''FoodGram | kirilyuk.surgut@yandex.ru | 2022'']
    \<and> content (DownloadShoppingCart_get s user)
        = CHR 0x0A # ''FoodGram | kirilyuk.surgut@yandex.ru | 2022''"
  using assms
  by (simp add: wishlist_def make_wishlist_def build_buying_list_def ingredients_query_def
        values_ingredient_def filter_recipe_in_def purchases_def newline_def footer_def
        DownloadShoppingCart_get_def setitem_def HttpResponse_init_def)

theorem empty_shopping_list_witness:
  "filter (\<lambda>p. m_user p = 2) (ShoppingList_objects db_flour) = []
   \<and> filter (\<lambda>p. m_user p = 1) (ShoppingList_objects db_flour) \<noteq> []
   \<and> wishlist db_flour 2 = [[CHR 0x0A], ''FoodGram | kirilyuk.surgut@yandex.ru | 2022'']
   \<and> content (DownloadShoppingCart_get db_flour 2)
        = CHR 0x0A # ''FoodGram | kirilyuk.surgut@yandex.ru | 2022''"
proof -
  have h: "filter (\<lambda>p. m_user p = 2) (ShoppingList_objects db_flour) = []"
    by (simp add: db_flour_def db_empty_def)
  show ?thesis using h empty_shopping_list[OF h] by (simp add: db_flour_def db_empty_def)
qed

text \<open>
  Claim C4 as stated fails: on \<open>db_flour\<close> the report of user 1 has the lines
  \<open>flour - 250 g\<close> and \<open>milk - 1 l\<close>, each followed by a space and a newline; the text
  of the claimed format alone, or followed by a newline only, is not a line of the
  report.
\<close>

theorem line_format_counterexample:
  "wishlist db_flour 1 =
     [''flour - 250 g '' @ [CHR 0x0A], ''milk - 1 l '' @ [CHR 0x0A], [CHR 0x0A],
      ''FoodGram | kirilyuk.surgut@yandex.ru | 2022'']
   \<and> ''flour - 250 g'' \<notin> set (wishlist db_flour 1)
   \<and> ''flour - 250 g'' @ [CHR 0x0A] \<notin> set (wishlist db_flour 1)"
  by (simp add: eval_defs db_flour_def str_nat.simps)

text \<open>
  Claim C4, amended. Every ingredient line of the report is the name, a space, a hyphen,
  a space, the amount in decimal, a space, the measurement unit, a space and a newline,
  one line for every entry of the buying list and in its order; the blank line and the
  footer follow.
\<close>

theorem wishlist_line_format:
  "wishlist s user =
     map (\<lambda>(name, unit, amt). name @ '' - '' @ str_nat amt @ '' '' @ unit @ '' '' @ [CHR 0x0A])
       (build_buying_list (ingredients_query s user))
     @ [[CHR 0x0A], ''FoodGram | kirilyuk.surgut@yandex.ru | 2022'']"
  by (simp add: wishlist_def make_wishlist_def wishlist_line_def newline_def footer_def
        case_prod_unfold)

text \<open>
  Claim C8. The response of the download view has status 200 and the
  \<open>Content-Disposition\<close> header of the claim, but the value of its \<open>Content-Type\<close>
  header is the whole text \<open>Content-Type: text/plain\<close>, the second argument of
  \<open>HttpResponse\<close>, and not \<open>text/plain\<close>.
\<close>

theorem download_headers:
  "headers (DownloadShoppingCart_get s user) =
     [(''Content-Type'', ''Content-Type: text/plain''),
      (''Content-Disposition'', ''attachment; filename=\"wishlist.txt\"'')]
   \<and> map_of (headers (DownloadShoppingCart_get s user)) ''Content-Type'' \<noteq> Some ''text/plain''
   \<and> status_code (DownloadShoppingCart_get s user) = 200"
  by (simp add: DownloadShoppingCart_get_def setitem_def HttpResponse_init_def)

section \<open>Properties of the validation of the cooking time\<close>

lemma run_validators_min:
  "run_validators (cooking_time_validators @ extra) v = Inr () \<Longrightarrow> 1 \<le> v"
  by (auto simp: run_validators_def cooking_time_validators_def MinValueValidator_def Let_def
      split: if_splits)

lemma run_validators_rejects:
  "v < 1 \<Longrightarrow> \<exists>errors. run_validators (cooking_time_validators @ extra) v = Inl errors
      \<and> ValidationError Min_cooking_time \<in> set errors"
  by (simp add: run_validators_def cooking_time_validators_def MinValueValidator_def Let_def)

lemma create_recipe_invariant:
  assumes "\<forall>r\<in>set (Recipe_objects s). 1 \<le> cooking_time r"
  shows "\<forall>r\<in>set (Recipe_objects (snd (create_recipe extra rcp s))). 1 \<le> cooking_time r"
proof (cases "run_validators (cooking_time_validators @ extra) (cooking_time rcp)")
  case (Inl errors)
  then show ?thesis using assms by (simp add: create_recipe_def)
next
  case (Inr u)
  then have "1 \<le> cooking_time rcp" using run_validators_min[of extra "cooking_time rcp"] by simp
  then show ?thesis using assms Inr by (simp add: create_recipe_def)
qed

lemma create_recipes_invariant:
  "\<forall>r\<in>set (Recipe_objects s). 1 \<le> cooking_time r
     \<Longrightarrow> \<forall>r\<in>set (Recipe_objects (create_recipes extra rcps s)). 1 \<le> cooking_time r"
proof (induction rcps arbitrary: s)
  case Nil
  then show ?case by simp
next
  case (Cons rcp rcps)
  show ?case
    using Cons.IH[OF create_recipe_invariant[OF Cons.prems]] by simp
qed

text \<open>
  Claim C9. The validators of \<open>cooking_time\<close> reject every value below 1 with the
  message of the field; creation rejects a recipe with such a cooking time and stores
  nothing; so every recipe stored by a sequence of creations, from the empty table or
  from a table whose recipes have a cooking time of at least 1, has a cooking time of at
  least 1.
\<close>

theorem cooking_time_minimum:
  "(v < 1 \<longrightarrow> (\<exists>errors. run_validators (cooking_time_validators @ extra) v = Inl errors
        \<and> ValidationError Min_cooking_time \<in> set errors))
   \<and> (cooking_time rcp < 1 \<longrightarrow>
        (\<exists>errors. create_recipe extra rcp s = (Inl errors, s)))
   \<and> (\<forall>r\<in>set (Recipe_objects (create_recipes extra rcps db_empty)). 1 \<le> cooking_time r)
   \<and> ((\<forall>r\<in>set (Recipe_objects s). 1 \<le> cooking_time r) \<longrightarrow>
        (\<forall>r\<in>set (Recipe_objects (create_recipes extra rcps s)). 1 \<le> cooking_time r))"
proof -
  have a: "v < 1 \<longrightarrow> (\<exists>errors. run_validators (cooking_time_validators @ extra) v = Inl errors
        \<and> ValidationError Min_cooking_time \<in> set errors)"
    using run_validators_rejects by blast
  have b: "cooking_time rcp < 1 \<longrightarrow> (\<exists>errors. create_recipe extra rcp s = (Inl errors, s))"
  proof
    assume "cooking_time rcp < 1"
    from run_validators_rejects[OF this, of extra]
    show "\<exists>errors. create_recipe extra rcp s = (Inl errors, s)"
      by (auto simp: create_recipe_def)
  qed
  have c: "\<forall>r\<in>set (Recipe_objects (create_recipes extra rcps db_empty)). 1 \<le> cooking_time r"
    by (rule create_recipes_invariant) (simp add: db_empty_def)
  have d: "(\<forall>r\<in>set (Recipe_objects s). 1 \<le> cooking_time r) \<longrightarrow>
        (\<forall>r\<in>set (Recipe_objects (create_recipes extra rcps s)). 1 \<le> cooking_time r)"
    using create_recipes_invariant by blast
  show ?thesis using a b c d by blast
qed

theorem cooking_time_minimum_witness:
  "(0::int) < 1
   \<and> run_validators (cooking_time_validators @ []) 0 = Inl [ValidationError Min_cooking_time]
   \<and> cooking_time (example_recipe 3 0) < 1
   \<and> create_recipe [] (example_recipe 3 0) db_members
       = (Inl [ValidationError Min_cooking_time], db_members)
   \<and> Recipe_objects (create_recipes [] [example_recipe 3 0, example_recipe 4 1] db_empty)
       = [example_recipe 4 1]
   \<and> map cooking_time (Recipe_objects db_members) = [30]
   \<and> Recipe_objects (create_recipes [] [example_recipe 3 0, example_recipe 4 1] db_members)
       = [example_recipe 7 30, example_recipe 4 1]
   \<and> map cooking_time
        (Recipe_objects (create_recipes [] [example_recipe 3 0, example_recipe 4 1] db_members))
       = [30, 1]"
  using cooking_time_minimum[of 0 "[]" "example_recipe 3 0" db_members
      "[example_recipe 3 0, example_recipe 4 1]"]
  by (simp add: run_validators_def cooking_time_validators_def MinValueValidator_def
        create_recipe_def db_members_def db_empty_def example_recipe_def)

end
